theory Spec2Isabelle
  imports Complex_Main "HOL-Library.Word"
begin

section \<open>The ledger store of app.py\<close>

text \<open>
  The two SQLAlchemy models of app.py (lines 31-45) become records, one field per column.
  The primary key column \<open>id\<close> of either model is written \<open>id_u\<close> (User) and
  \<open>id_t\<close> (Transaction), because \<open>id\<close> is the identity function of HOL.

  A column of type \<open>db.Integer\<close> that holds a key is a signed 64-bit integer, the INTEGER
  of SQLite (line 19), read with \<open>sint\<close>.

  The columns of type \<open>db.Float\<close> (balance, commission_rate, amount, commission) range
  over a type variable \<open>'n\<close>, the doubles: the code multiplies two of them (line 128)
  and the database tests them for NaN, and every statement below holds for whatever
  product and comparison \<open>'n\<close> carries, those of IEEE doubles included. The column
  \<open>commission_rate\<close> may be NULL (line 34 does not say \<open>nullable=False\<close>), which Python
  reads as None.

  A \<open>db.DateTime\<close> value is the number of microseconds since the epoch, the resolution
  of Python's \<open>datetime\<close>.
\<close>

type_synonym timestamp = int

type_synonym key = "64 word"

record 'n user =
  id_u :: key
  balance :: 'n
  commission_rate :: "'n option"
  webhook_url :: "string option"
  role :: string
  usdt_wallet :: "string option"

record 'n transaction =
  id_t :: key
  amount :: 'n
  commission :: 'n
  status :: string
  created_at :: timestamp
  user_id :: key

text \<open>
  The database behind \<open>db\<close>: one table per model, a table being the list of its rows.
  Every write of app.py is followed at once by \<open>db.session.commit()\<close> with no read
  between the two, so a write and its commit are one update of the store.
\<close>

record 'n store =
  users :: "'n user list"
  transactions :: "'n transaction list"

text \<open>The exceptions that the code below can end with.\<close>

datatype error =
    AttributeError
  | OverflowError
  | TypeError
  | IntegrityError
  | OperationalError

text \<open>The integers that SQLite accepts as the value of an INTEGER parameter.\<close>

definition int64 :: "int \<Rightarrow> bool" where
  "int64 i \<longleftrightarrow> - (2 ^ 63) \<le> i \<and> i < 2 ^ 63"

text \<open>
  The SELECT by primary key behind \<open>User.query.get\<close> and \<open>Transaction.query.get\<close>: the
  row whose key is the number \<open>i\<close>, or None. No row has a key outside the 64-bit range,
  so such a number finds nothing.
\<close>

definition get_user :: "int \<Rightarrow> 'n store \<Rightarrow> 'n user option" where
  "get_user i s = find (\<lambda>u. sint (id_u u) = i) (users s)"

definition get_transaction :: "int \<Rightarrow> 'n store \<Rightarrow> 'n transaction option" where
  "get_transaction i s = find (\<lambda>t. sint (id_t t) = i) (transactions s)"

text \<open>
  \<open>User.query.get(user_id)\<close> (line 124) and \<open>Transaction.query.get(transaction_id)\<close>
  (line 163) with the integer of the JSON body: the driver binds it as an INTEGER
  parameter and raises OverflowError when it does not fit 64 bits; nothing in the
  handlers checks the range before. (Line 198 passes the text of the query string
  instead, which the driver binds as it is: there the call is \<open>get_transaction\<close>.)
\<close>

definition user_query_get :: "int \<Rightarrow> 'n store \<Rightarrow> error + 'n user option" where
  "user_query_get i s = (if int64 i then Inr (get_user i s) else Inl OverflowError)"

definition transaction_query_get :: "int \<Rightarrow> 'n store \<Rightarrow> error + 'n transaction option" where
  "transaction_query_get i s = (if int64 i then Inr (get_transaction i s) else Inl OverflowError)"

text \<open>
  The key SQLite gives a row inserted without one (line 130: no \<open>id\<close> is passed): 1 for
  an empty table, otherwise one more than the largest key. When the largest key is
  \<open>2^63 - 1\<close> SQLite draws positive keys at random until it finds an unused one, and fails
  (SQLITE_FULL) when it finds none; of the keys it may find the model takes the least, and
  the statements below use nothing of the new key but that no row has it.
\<close>

definition next_id :: "'n transaction list \<Rightarrow> key option" where
  "next_id rows =
     (case map (\<lambda>t. sint (id_t t)) rows of
        [] \<Rightarrow> Some 1
      | k # ks \<Rightarrow>
          if fold max ks k < 2 ^ 63 - 1 then Some (word_of_int (fold max ks k + 1))
          else map_option word_of_int
                 (find (\<lambda>c. c \<notin> set (k # ks))
                    [1 .. min (int (length (k # ks)) + 1) (2 ^ 63 - 1)]))"

text \<open>
  The UPDATE that a commit emits after \<open>transaction.status = v\<close>: the status column of
  the row with key \<open>i\<close> takes the value \<open>v\<close>.
\<close>

definition update_status :: "key \<Rightarrow> string \<Rightarrow> 'n store \<Rightarrow> 'n store" where
  "update_status i v s =
     s\<lparr>transactions := map (\<lambda>t. if id_t t = i then t\<lparr>status := v\<rparr> else t) (transactions s)\<rparr>"

section \<open>Numbers\<close>

text \<open>
  The \<open>amount\<close> of a request body is a JSON number, which Python reads as a float
  (\<open>Double\<close>; the JSON reader also accepts NaN and Infinity) or as an int of any size
  (\<open>Integer\<close>, given with the double that \<open>float()\<close> makes of it where it makes one).
  \<open>float()\<close> of an int raises OverflowError when the int rounds to \<open>2^1024\<close> or beyond,
  that is from \<open>2^1024 - 2^970\<close> on in magnitude.
\<close>

datatype 'n number = Double 'n | Integer int 'n

fun double_of :: "'n number \<Rightarrow> error + 'n" where
  "double_of (Double a) = Inr a"
| "double_of (Integer i d) =
     (if \<bar>i\<bar> \<ge> 2 ^ 1024 - 2 ^ 970 then Inl OverflowError else Inr d)"

text \<open>NaN is the one double that is not less than or equal to itself.\<close>

definition nan :: "'n::ord \<Rightarrow> bool" where
  "nan x \<longleftrightarrow> \<not> x \<le> x"

text \<open>
  Line 128, \<open>amount * user.commission_rate\<close>: TypeError when the rate is None; otherwise
  an int amount is converted to a double first, and the product is that of doubles.
\<close>

definition multiply :: "'n::times number \<Rightarrow> 'n option \<Rightarrow> error + 'n" where
  "multiply amt rate =
     (case rate of
        None \<Rightarrow> Inl TypeError
      | Some r \<Rightarrow> (case double_of amt of Inl e \<Rightarrow> Inl e | Inr a \<Rightarrow> Inr (a * r)))"

text \<open>
  Lines 129-131: the INSERT that the commit emits. The Float column converts the amount to
  a double. SQLite picks the key, then stores a NaN as NULL, which the NOT NULL columns
  of lines 41-42 refuse (IntegrityError); a failed insert stores nothing. The column
  defaults of lines 43-44 give the row the status pending and the clock reading.
\<close>

definition insert_transaction ::
  "'n::ord number \<Rightarrow> 'n \<Rightarrow> int \<Rightarrow> timestamp \<Rightarrow> 'n store \<Rightarrow> error + key \<times> 'n store" where
  "insert_transaction amt c uid clock s =
     (case double_of amt of
        Inl e \<Rightarrow> Inl e
      | Inr a \<Rightarrow>
          (case next_id (transactions s) of
             None \<Rightarrow> Inl OperationalError
           | Some k \<Rightarrow>
               if nan a \<or> nan c then Inl IntegrityError
               else Inr (k, s\<lparr>transactions := transactions s @
                                [\<lparr>id_t = k, amount = a, commission = c, status = ''pending'',
                                  created_at = clock, user_id = word_of_int uid\<rparr>]\<rparr>)))"

section \<open>The HTTP handlers\<close>

text \<open>
  A response is the JSON body given to \<open>jsonify\<close> and the HTTP status code
  (200 where the handler returns the body alone). An exception that leaves a handler is
  answered by Flask with status 500.
\<close>

datatype body =
    ErrorBody string
  | TransactionIdBody int
  | StatusBody string
  | CheckBody int string
  | Unhandled error

type_synonym response = "body \<times> nat"

text \<open>
  \<open>create_transaction\<close>, lines 121-132. The arguments are the \<open>user_id\<close> and
  \<open>amount\<close> of the request body, at the types the handler documents (integer, number),
  and the clock reading that the column default \<open>datetime.utcnow\<close> of line 44 takes at the
  insert.
\<close>

definition create_transaction ::
  "int \<Rightarrow> 'n::{times,ord} number \<Rightarrow> timestamp \<Rightarrow> 'n store \<Rightarrow> response \<times> 'n store" where
  "create_transaction uid amt clock s =
     (case user_query_get uid s of
        Inl e \<Rightarrow> ((Unhandled e, 500), s)
      | Inr None \<Rightarrow> ((ErrorBody ''User not found'', 404), s)
      | Inr (Some user) \<Rightarrow>
          (case multiply amt (commission_rate user) of
             Inl e \<Rightarrow> ((Unhandled e, 500), s)
           | Inr c \<Rightarrow>
               (case insert_transaction amt c uid clock s of
                  Inl e \<Rightarrow> ((Unhandled e, 500), s)
                | Inr (k, s') \<Rightarrow> ((TransactionIdBody (sint k), 201), s'))))"

text \<open>\<open>cancel_transaction\<close>, lines 161-170.\<close>

definition cancel_transaction :: "int \<Rightarrow> 'n store \<Rightarrow> response \<times> 'n store" where
  "cancel_transaction tid s =
     (case transaction_query_get tid s of
        Inl e \<Rightarrow> ((Unhandled e, 500), s)
      | Inr None \<Rightarrow> ((ErrorBody ''Transaction not found'', 404), s)
      | Inr (Some t) \<Rightarrow>
          if status t = ''pending''
          then ((StatusBody (status (t\<lparr>status := ''canceled''\<rparr>)), 200),
                update_status (id_t t) ''canceled'' s)
          else ((StatusBody (status t), 200), s))"

text \<open>
  \<open>check_transaction\<close>, lines 197-205; \<open>tid\<close> is the number that the text of the query
  string denotes. The handler writes nothing; it returns the store it got.
\<close>

definition check_transaction :: "int \<Rightarrow> 'n store \<Rightarrow> response \<times> 'n store" where
  "check_transaction tid s =
     (case get_transaction tid s of
        None \<Rightarrow> ((ErrorBody ''Transaction not found'', 404), s)
      | Some t \<Rightarrow> ((CheckBody (sint (id_t t)) (status t), 200), s))"

section \<open>The expiry sweeper\<close>

text \<open>
  What the sweeper does to the outside: a commit of the session, and a POST of
  \<open>{transaction_id, status}\<close> to a URL.
\<close>

datatype event = Commit | Post string int string

text \<open>
  Line 11, \<open>from datetime import datetime, timedelta\<close>, binds the module-level name
  \<open>datetime\<close> to the class \<open>datetime.datetime\<close>, not to the module. The class has the
  class method \<open>utcnow\<close> and no attribute \<open>datetime\<close>; the module has the attribute
  \<open>datetime\<close> (the class) and no function \<open>utcnow\<close>.
\<close>

datatype py_object = DatetimeModule | DatetimeClass

definition datetime_name :: py_object where
  "datetime_name = DatetimeClass"

fun attr_datetime :: "py_object \<Rightarrow> error + py_object" where
  "attr_datetime DatetimeModule = Inr DatetimeClass"
| "attr_datetime DatetimeClass = Inl AttributeError"

fun call_utcnow :: "py_object \<Rightarrow> timestamp \<Rightarrow> error + timestamp" where
  "call_utcnow DatetimeClass clock = Inr clock"
| "call_utcnow DatetimeModule clock = Inl AttributeError"

text \<open>Line 210: \<open>datetime.datetime.utcnow()\<close>, at the clock reading \<open>clock\<close>.\<close>

definition utcnow_sweeper :: "timestamp \<Rightarrow> error + timestamp" where
  "utcnow_sweeper clock =
     (case attr_datetime datetime_name of
        Inl e \<Rightarrow> Inl e
      | Inr c \<Rightarrow> call_utcnow c clock)"

text \<open>Line 65, in the dashboard view: \<open>datetime.utcnow()\<close>.\<close>

definition utcnow_dashboard :: "timestamp \<Rightarrow> error + timestamp" where
  "utcnow_dashboard clock = call_utcnow datetime_name clock"

text \<open>
  Line 217: \<open>transaction.user\<close>. The class Transaction (lines 39-45) declares the six
  columns and nothing else, and User (lines 31-37) declares no relationship with a
  back reference, so an instance has no attribute \<open>user\<close> and the access raises. An
  attribute of that name over the foreign key of line 45 would be the owning user, or None
  where the key matches no user.
\<close>

definition transaction_attributes :: "string list" where
  "transaction_attributes =
     [''id'', ''amount'', ''commission'', ''status'', ''created_at'', ''user_id'']"

definition transaction_user :: "'n store \<Rightarrow> 'n transaction \<Rightarrow> error + 'n user option" where
  "transaction_user s t =
     (if ''user'' \<in> set transaction_attributes then Inr (get_user (sint (user_id t)) s)
      else Inl AttributeError)"

text \<open>
  \<open>(now - transaction.created_at).total_seconds() > 900\<close>, line 213. The difference is a
  whole number of microseconds, and its quotient by \<open>10^6\<close>, rounded to a double, exceeds
  900 exactly when the difference exceeds 900000000.
\<close>

definition stale :: "timestamp \<Rightarrow> 'n transaction \<Rightarrow> bool" where
  "stale now t \<longleftrightarrow> now - created_at t > 900 * 1000000"

text \<open>Lines 217-221: the notification, sent when the URL is neither None nor empty.\<close>

definition notify :: "'n user \<Rightarrow> 'n transaction \<Rightarrow> event list" where
  "notify u t =
     (case webhook_url u of
        None \<Rightarrow> []
      | Some url \<Rightarrow> if url = [] then [] else [Post url (sint (id_t t)) ''expired''])"

text \<open>
  The loop of lines 212-221 over the rows the query of line 211 returned. The result is
  the exception that ended the run, if any, the store, and the events in order. An
  exception leaves the loop at once, with the commits made so far in the store; reading
  \<open>webhook_url\<close> of None raises AttributeError as well.
\<close>

fun sweep_rows ::
  "timestamp \<Rightarrow> 'n transaction list \<Rightarrow> 'n store \<Rightarrow> error option \<times> 'n store \<times> event list" where
  "sweep_rows now [] s = (None, s, [])"
| "sweep_rows now (t # ts) s =
     (if stale now t then
        (case transaction_user (update_status (id_t t) ''expired'' s) t of
           Inl e \<Rightarrow> (Some e, update_status (id_t t) ''expired'' s, [Commit])
         | Inr None \<Rightarrow> (Some AttributeError, update_status (id_t t) ''expired'' s, [Commit])
         | Inr (Some u) \<Rightarrow>
             (case sweep_rows now ts (update_status (id_t t) ''expired'' s) of
                (r, s', es) \<Rightarrow> (r, s', Commit # notify u t @ es)))
      else sweep_rows now ts s)"

text \<open>Lines 211-221, for a given value of \<open>now\<close>.\<close>

definition sweep_pending :: "timestamp \<Rightarrow> 'n store \<Rightarrow> error option \<times> 'n store \<times> event list" where
  "sweep_pending now s =
     sweep_rows now (filter (\<lambda>t. status t = ''pending'') (transactions s)) s"

text \<open>\<open>check_pending_transactions\<close>, lines 209-221, run when the clock reads \<open>clock\<close>.\<close>

definition check_pending_transactions ::
  "timestamp \<Rightarrow> 'n store \<Rightarrow> error option \<times> 'n store \<times> event list" where
  "check_pending_transactions clock s =
     (case utcnow_sweeper clock of
        Inl e \<Rightarrow> (Some e, s, [])
      | Inr now \<Rightarrow> sweep_pending now s)"

text \<open>
  The order of the events of a run: every POST comes straight after a commit, the one
  of its own turn of the loop. The flag says whether a commit has just been made.
\<close>

fun commit_precedes_post :: "bool \<Rightarrow> event list \<Rightarrow> bool" where
  "commit_precedes_post committed [] = True"
| "commit_precedes_post committed (Commit # es) = commit_precedes_post True es"
| "commit_precedes_post committed (Post url i v # es) =
     (committed \<and> commit_precedes_post False es)"

text \<open>Every POST among the events names a transaction that the store holds as expired.\<close>

fun posted_expired :: "'n store \<Rightarrow> event list \<Rightarrow> bool" where
  "posted_expired s [] = True"
| "posted_expired s (Commit # es) = posted_expired s es"
| "posted_expired s (Post url i v # es) =
     (v = ''expired'' \<and> map_option status (get_transaction i s) = Some ''expired'' \<and>
      posted_expired s es)"

section \<open>The operations as steps of the store\<close>

text \<open>
  The four operations on transactions that app.py has, and the store each leaves behind
  when it runs at the clock reading \<open>clock\<close>.
\<close>

datatype 'n operation = Create int "'n number" | Cancel int | Check int | Sweep

fun run :: "timestamp \<Rightarrow> 'n::{times,ord} operation \<Rightarrow> 'n store \<Rightarrow> 'n store" where
  "run clock (Create uid amt) s = snd (create_transaction uid amt clock s)"
| "run clock (Cancel tid) s = snd (cancel_transaction tid s)"
| "run clock (Check tid) s = snd (check_transaction tid s)"
| "run clock Sweep s = fst (snd (check_pending_transactions clock s))"

text \<open>The status values that the comment of line 43 and the form of line 57 list.\<close>

definition status_names :: "string list" where
  "status_names = [''pending'', ''confirmed'', ''canceled'', ''expired'']"

text \<open>The primary key constraint of line 40: no two rows of the table share a key.\<close>

definition unique_ids :: "'n store \<Rightarrow> bool" where
  "unique_ids s \<longleftrightarrow> distinct (map id_t (transactions s))"

text \<open>The rows with a key in \<open>I\<close> expire; the others stay as they are.\<close>

definition expire_in :: "key set \<Rightarrow> 'n transaction \<Rightarrow> 'n transaction" where
  "expire_in I t = (if id_t t \<in> I then t\<lparr>status := ''expired''\<rparr> else t)"

section \<open>A small ledger\<close>

text \<open>
  One user with a webhook URL and a commission rate of one percent, and three transactions
  of that user: the first pending and created at time 0, the second confirmed, the third
  pending and created two seconds later. At 901 seconds the first is 901 seconds old and
  the third 899.
\<close>

definition alice :: "real user" where
  "alice = \<lparr>id_u = 1, balance = 0, commission_rate = Some (1 / 100),
            webhook_url = Some ''https://example.org/hook'', role = ''user'',
            usdt_wallet = None\<rparr>"

definition row :: "key \<Rightarrow> string \<Rightarrow> timestamp \<Rightarrow> real transaction" where
  "row i v c = \<lparr>id_t = i, amount = 200, commission = 2, status = v, created_at = c, user_id = 1\<rparr>"

definition ledger :: "real store" where
  "ledger = \<lparr>users = [alice],
             transactions = [row 1 ''pending'' 0, row 2 ''confirmed'' 0, row 3 ''pending'' 2000000]\<rparr>"

text \<open>
  A second number type for the examples, with a NaN: a double without its rounding, whose
  product and comparison treat NaN as those of IEEE doubles do. One user over it, and an
  empty table.
\<close>

datatype num_or_nan = Num real | NaN

instantiation num_or_nan :: "{times, ord}"
begin

fun times_num_or_nan :: "num_or_nan \<Rightarrow> num_or_nan \<Rightarrow> num_or_nan" where
  "times_num_or_nan (Num x) (Num y) = Num (x * y)"
| "times_num_or_nan x y = NaN"

fun less_eq_num_or_nan :: "num_or_nan \<Rightarrow> num_or_nan \<Rightarrow> bool" where
  "less_eq_num_or_nan (Num x) (Num y) = (x \<le> y)"
| "less_eq_num_or_nan x y = False"

fun less_num_or_nan :: "num_or_nan \<Rightarrow> num_or_nan \<Rightarrow> bool" where
  "less_num_or_nan (Num x) (Num y) = (x < y)"
| "less_num_or_nan x y = False"

instance ..

end

definition bob :: "num_or_nan user" where
  "bob = \<lparr>id_u = 1, balance = Num 0, commission_rate = Some (Num (1 / 100)),
          webhook_url = None, role = ''user'', usdt_wallet = None\<rparr>"

definition bobs :: "num_or_nan store" where
  "bobs = \<lparr>users = [bob], transactions = []\<rparr>"

lemmas example_defs = alice_def row_def ledger_def

section \<open>Keys and look-ups\<close>

lemma int64_sint: "int64 (sint (k::key))"
  using sint_ge [of k] sint_lt [of k] by (simp add: int64_def)

lemma sint_word_of_int_key: "int64 i \<Longrightarrow> sint (word_of_int i :: key) = i"
  by (simp add: int64_def sint_sbintrunc' signed_take_bit_int_eq_self)

lemma fold_max_ge: "(a::int) \<le> fold max xs a"
  by (induction xs arbitrary: a) (auto intro: order_trans [OF max.cobounded2])

lemma fold_max_mem: "x \<in> set xs \<Longrightarrow> (x::int) \<le> fold max xs a"
proof (induction xs arbitrary: a)
  case Nil
  then show ?case by simp
next
  case (Cons y ys)
  show ?case
  proof (cases "x = y")
    case True
    have "y \<le> max y a" by simp
    also have "\<dots> \<le> fold max ys (max y a)" by (rule fold_max_ge)
    finally show ?thesis using True by simp
  next
    case False
    with Cons.prems have "x \<in> set ys" by simp
    then show ?thesis using Cons.IH by simp
  qed
qed

lemma find_Some_mem: "find P rows = Some t \<Longrightarrow> P t \<and> t \<in> set rows"
  by (induction rows) (auto split: if_splits)

lemma sint_key_eq: "sint (a::key) = sint b \<longleftrightarrow> a = b"
  by (auto intro: signed_word_eqI)

text \<open>The key of a new row is the key of no row of the table.\<close>

lemma next_id_fresh:
  assumes "next_id rows = Some k" and "t \<in> set rows"
  shows "id_t t \<noteq> k"
proof (cases "map (\<lambda>t. sint (id_t t)) rows")
  case Nil
  with assms(2) show ?thesis by simp
next
  case (Cons c cs)
  let ?m = "fold max cs c"
  from assms(2) have "sint (id_t t) \<in> set (map (\<lambda>t. sint (id_t t)) rows)" by simp
  with Cons have mem: "sint (id_t t) \<in> set (c # cs)" by simp
  then have le: "sint (id_t t) \<le> ?m"
    using fold_max_ge [of c cs] fold_max_mem [of "sint (id_t t)" cs c] by auto
  show ?thesis
  proof (cases "?m < 2 ^ 63 - 1")
    case True
    with assms(1) Cons have k: "k = word_of_int (?m + 1)" by (simp add: next_id_def)
    from int64_sint [of "id_t t"] le True have "int64 (?m + 1)" by (simp add: int64_def)
    then have "sint k = ?m + 1" unfolding k by (rule sint_word_of_int_key)
    with le show ?thesis by auto
  next
    case False
    with assms(1) Cons obtain c' where
      f: "find (\<lambda>x. x \<notin> set (c # cs)) [1 .. min (int (length (c # cs)) + 1) (2 ^ 63 - 1)] = Some c'"
      and k: "k = word_of_int c'"
      by (auto simp: next_id_def)
    from find_Some_mem [OF f]
    have "c' \<notin> set (c # cs)" and "c' \<in> set [1 .. min (int (length (c # cs)) + 1) (2 ^ 63 - 1)]"
      by simp_all
    then have "c' \<notin> set (c # cs)" and "int64 c'" by (auto simp: int64_def)
    then have "sint k = c'" and "c' \<notin> set (c # cs)"
      unfolding k by (simp_all add: sint_word_of_int_key)
    with mem show ?thesis by auto
  qed
qed

lemma find_fresh: "\<forall>t \<in> set rows. \<not> P t \<Longrightarrow> find P rows = None"
  by (induction rows) auto

lemma get_transaction_next_id:
  "next_id (transactions s) = Some k \<Longrightarrow> get_transaction (sint k) s = None"
  unfolding get_transaction_def
  by (rule find_fresh) (auto simp: sint_key_eq dest: next_id_fresh)

lemma find_append_new:
  "find P (xs @ [x]) = (case find P xs of Some y \<Rightarrow> Some y | None \<Rightarrow> if P x then Some x else None)"
  by (induction xs) auto

lemma find_map_same:
  "(\<And>x. P (f x) = P x) \<Longrightarrow> find P (map f rows) = map_option f (find P rows)"
  by (induction rows) auto

lemma get_transaction_update_status:
  "get_transaction j (update_status i v s) =
   map_option (\<lambda>t. if id_t t = i then t\<lparr>status := v\<rparr> else t) (get_transaction j s)"
  by (simp add: get_transaction_def update_status_def find_map_same)

lemma users_update_status: "users (update_status i v s) = users s"
  by (simp add: update_status_def)

lemma get_transaction_SomeD:
  "get_transaction i s = Some t \<Longrightarrow> sint (id_t t) = i \<and> t \<in> set (transactions s)"
  unfolding get_transaction_def by (rule find_Some_mem)

lemma get_transaction_int64: "get_transaction i s = Some t \<Longrightarrow> int64 i"
  using get_transaction_SomeD [of i s t] int64_sint [of "id_t t"] by auto

lemma get_user_int64: "get_user i s = Some u \<Longrightarrow> int64 i"
  using find_Some_mem [of "\<lambda>u. sint (id_u u) = i" "users s" u] int64_sint [of "id_u u"]
  by (auto simp: get_user_def)

lemma transaction_query_get_Some:
  "get_transaction i s = Some t \<Longrightarrow> transaction_query_get i s = Inr (Some t)"
  by (simp add: transaction_query_get_def get_transaction_int64)

lemma user_query_get_Some:
  "get_user i s = Some u \<Longrightarrow> user_query_get i s = Inr (Some u)"
  by (simp add: user_query_get_def get_user_int64)

section \<open>The sweeper's loop\<close>

lemma update_status_expire_in:
  "update_status i ''expired'' s = s\<lparr>transactions := map (expire_in {i}) (transactions s)\<rparr>"
  by (simp add: update_status_def expire_in_def)

lemma expire_in_insert: "expire_in I (expire_in {i} t) = expire_in (insert i I) t"
  by (simp add: expire_in_def)

lemma sweep_rows_effect:
  "\<exists>I. I \<subseteq> id_t ` {t \<in> set rows. stale now t} \<and>
       fst (snd (sweep_rows now rows s)) = s\<lparr>transactions := map (expire_in I) (transactions s)\<rparr>"
proof (induction rows arbitrary: s)
  case Nil
  have "expire_in {} = (\<lambda>t::'a transaction. t)" by (rule ext) (simp add: expire_in_def)
  then have "fst (snd (sweep_rows now [] s)) = s\<lparr>transactions := map (expire_in {}) (transactions s)\<rparr>"
    by simp
  then show ?case by blast
next
  case (Cons t ts)
  show ?case
  proof (cases "stale now t")
    case False
    from Cons.IH [of s] obtain I where
      I: "I \<subseteq> id_t ` {t \<in> set ts. stale now t}"
      "fst (snd (sweep_rows now ts s)) = s\<lparr>transactions := map (expire_in I) (transactions s)\<rparr>"
      by blast
    from I(1) have sub: "I \<subseteq> id_t ` {x \<in> set (t # ts). stale now x}" by auto
    from I(2) False have "fst (snd (sweep_rows now (t # ts) s)) =
        s\<lparr>transactions := map (expire_in I) (transactions s)\<rparr>" by simp
    with sub show ?thesis by (rule_tac x = I in exI) (rule conjI)
  next
    case True
    let ?s1 = "update_status (id_t t) ''expired'' s"
    have s1: "?s1 = s\<lparr>transactions := map (expire_in {id_t t}) (transactions s)\<rparr>"
      by (rule update_status_expire_in)
    have one: "{id_t t} \<subseteq> id_t ` {x \<in> set (t # ts). stale now x}" using True by auto
    show ?thesis
    proof (cases "transaction_user ?s1 t")
      case (Inl e)
      with True have "fst (snd (sweep_rows now (t # ts) s)) = ?s1" by simp
      then have "fst (snd (sweep_rows now (t # ts) s)) =
          s\<lparr>transactions := map (expire_in {id_t t}) (transactions s)\<rparr>"
        using s1 by (simp only:)
      with one show ?thesis by (rule_tac x = "{id_t t}" in exI) (rule conjI)
    next
      case (Inr uo)
      show ?thesis
      proof (cases uo)
        case None
        with Inr True have "fst (snd (sweep_rows now (t # ts) s)) = ?s1" by simp
        then have "fst (snd (sweep_rows now (t # ts) s)) =
            s\<lparr>transactions := map (expire_in {id_t t}) (transactions s)\<rparr>"
          using s1 by (simp only:)
        with one show ?thesis by (rule_tac x = "{id_t t}" in exI) (rule conjI)
      next
        case (Some u)
        from Cons.IH [of ?s1] obtain I where
          I: "I \<subseteq> id_t ` {t \<in> set ts. stale now t}"
          "fst (snd (sweep_rows now ts ?s1)) = ?s1\<lparr>transactions := map (expire_in I) (transactions ?s1)\<rparr>"
          by blast
        have "fst (snd (sweep_rows now (t # ts) s)) = fst (snd (sweep_rows now ts ?s1))"
          using True Inr Some by (simp split: prod.splits)
        also have "\<dots> = ?s1\<lparr>transactions := map (expire_in I) (transactions ?s1)\<rparr>"
          by (rule I(2))
        also have "\<dots> = s\<lparr>transactions := map (expire_in (insert (id_t t) I)) (transactions s)\<rparr>"
          by (simp add: update_status_expire_in expire_in_insert comp_def)
        finally have eq: "fst (snd (sweep_rows now (t # ts) s)) =
            s\<lparr>transactions := map (expire_in (insert (id_t t) I)) (transactions s)\<rparr>" .
        have "insert (id_t t) I \<subseteq> id_t ` {x \<in> set (t # ts). stale now x}"
          using I(1) True by auto
        with eq show ?thesis
          by (rule_tac x = "insert (id_t t) I" in exI) (rule conjI)
      qed
    qed
  qed
qed

lemma get_transaction_expire_in:
  "get_transaction j (s\<lparr>transactions := map (expire_in I) (transactions s)\<rparr>) =
   map_option (expire_in I) (get_transaction j s)"
  by (simp add: get_transaction_def find_map_same expire_in_def)

lemma distinct_ids_same_row:
  "distinct (map id_t rows) \<Longrightarrow> t \<in> set rows \<Longrightarrow> t' \<in> set rows \<Longrightarrow> id_t t = id_t t' \<Longrightarrow> t = t'"
  by (meson distinct_map inj_onD)

text \<open>The effect of lines 211-221 on a row, for any value of now.\<close>

lemma sweep_pending_row:
  assumes u: "unique_ids s" and g: "get_transaction i s = Some t"
  shows "get_transaction i (fst (snd (sweep_pending now s))) = Some t \<or>
         (status t = ''pending'' \<and> stale now t \<and>
          get_transaction i (fst (snd (sweep_pending now s))) = Some (t\<lparr>status := ''expired''\<rparr>))"
proof -
  let ?rows = "filter (\<lambda>t. status t = ''pending'') (transactions s)"
  from sweep_rows_effect [of ?rows now s] obtain I where
    I: "I \<subseteq> id_t ` {t \<in> set ?rows. stale now t}"
    "fst (snd (sweep_rows now ?rows s)) = s\<lparr>transactions := map (expire_in I) (transactions s)\<rparr>"
    by blast
  have get: "get_transaction i (fst (snd (sweep_pending now s))) = Some (expire_in I t)"
    using g by (simp add: sweep_pending_def I(2) get_transaction_expire_in)
  from g have t: "t \<in> set (transactions s)" by (auto dest: get_transaction_SomeD)
  show ?thesis
  proof (cases "id_t t \<in> I")
    case False
    with get show ?thesis by (simp add: expire_in_def)
  next
    case True
    with I(1) obtain t' where t': "t' \<in> set (transactions s)" "status t' = ''pending''"
      "stale now t'" "id_t t' = id_t t" by auto
    with u t have "t' = t" unfolding unique_ids_def by (intro distinct_ids_same_row) simp_all
    with t' get True show ?thesis by (simp add: expire_in_def)
  qed
qed

lemma sweep_pending_users: "users (fst (snd (sweep_pending now s))) = users s"
proof -
  from sweep_rows_effect [of "filter (\<lambda>t. status t = ''pending'') (transactions s)" now s]
  show ?thesis by (auto simp: sweep_pending_def)
qed

lemma sweep_pending_new_row:
  "get_transaction i s = None \<Longrightarrow> get_transaction i (fst (snd (sweep_pending now s))) = None"
proof -
  assume n: "get_transaction i s = None"
  from sweep_rows_effect [of "filter (\<lambda>t. status t = ''pending'') (transactions s)" now s]
  obtain I where "fst (snd (sweep_pending now s)) = s\<lparr>transactions := map (expire_in I) (transactions s)\<rparr>"
    by (auto simp: sweep_pending_def)
  with n show ?thesis by (simp add: get_transaction_expire_in)
qed

lemma utcnow_sweeper_raises: "utcnow_sweeper clock = Inl AttributeError"
  by (simp add: utcnow_sweeper_def datetime_name_def)

lemma check_pending_transactions_raises:
  "check_pending_transactions clock s = (Some AttributeError, s, [])"
  by (simp add: check_pending_transactions_def utcnow_sweeper_raises)

lemma transaction_user_raises: "transaction_user s t = Inl AttributeError"
  by (simp add: transaction_user_def transaction_attributes_def)

lemma sweep_rows_first_stale:
  "sweep_rows now rows s =
     (case find (stale now) rows of
        None \<Rightarrow> (None, s, [])
      | Some t \<Rightarrow> (Some AttributeError, update_status (id_t t) ''expired'' s, [Commit]))"
  by (induction rows) (simp_all add: transaction_user_raises)

section \<open>One step of an operation\<close>

text \<open>create_transaction leaves the store alone or appends one pending row under a new key.\<close>

lemma create_transaction_store:
  "snd (create_transaction uid amt clock s) = s \<or>
   (\<exists>t. snd (create_transaction uid amt clock s) = s\<lparr>transactions := transactions s @ [t]\<rparr> \<and>
        status t = ''pending'' \<and> next_id (transactions s) = Some (id_t t))"
  by (auto simp: create_transaction_def insert_transaction_def
           split: sum.splits option.splits if_splits)

lemma run_row:
  assumes "get_transaction i s = Some t"
  shows "get_transaction i (run clock op s) = Some t \<or>
         (status t = ''pending'' \<and> op = Cancel i \<and>
          get_transaction i (run clock op s) = Some (t\<lparr>status := ''canceled''\<rparr>))"
proof (cases op)
  case (Create uid amt)
  from create_transaction_store [of uid amt clock s] assms
  have "get_transaction i (snd (create_transaction uid amt clock s)) = Some t"
    by (auto simp: get_transaction_def find_append_new)
  with Create show ?thesis by simp
next
  case (Cancel j)
  show ?thesis
  proof (cases "transaction_query_get j s")
    case (Inl e)
    with Cancel assms show ?thesis by (simp add: cancel_transaction_def)
  next
    case (Inr xo)
    show ?thesis
    proof (cases xo)
      case None
      with Inr Cancel assms show ?thesis by (simp add: cancel_transaction_def)
    next
      case (Some x)
      with Inr have gx: "get_transaction j s = Some x"
        by (simp add: transaction_query_get_def split: if_splits)
      then have x: "sint (id_t x) = j" by (simp add: get_transaction_SomeD)
      from assms have t: "sint (id_t t) = i" by (simp add: get_transaction_SomeD)
      show ?thesis
      proof (cases "status x = ''pending''")
        case False
        with Some Inr Cancel assms show ?thesis by (simp add: cancel_transaction_def)
      next
        case True
        with Some Inr Cancel have run: "run clock op s = update_status (id_t x) ''canceled'' s"
          by (simp add: cancel_transaction_def)
        show ?thesis
        proof (cases "j = i")
          case False
          with x t have "id_t t \<noteq> id_t x" by auto
          with run assms show ?thesis by (simp add: get_transaction_update_status)
        next
          case True
          with gx assms have "x = t" by simp
          with \<open>status x = ''pending''\<close> run assms True Cancel show ?thesis
            by (simp add: get_transaction_update_status)
        qed
      qed
    qed
  qed
next
  case (Check j)
  then show ?thesis using assms by (simp add: check_transaction_def split: option.splits)
next
  case Sweep
  then show ?thesis using assms by (simp add: check_pending_transactions_raises)
qed

lemma run_new_row:
  assumes "get_transaction i s = None" and "get_transaction i (run clock op s) = Some t'"
  shows "status t' = ''pending'' \<and> (\<exists>uid amt. op = Create uid amt)"
proof (cases op)
  case (Create uid amt)
  from create_transaction_store [of uid amt clock s] assms Create show ?thesis
    by (auto simp: get_transaction_def find_append_new split: if_splits)
next
  case (Cancel j)
  with assms show ?thesis
    by (auto simp: cancel_transaction_def get_transaction_update_status
             split: sum.splits option.splits if_splits)
next
  case (Check j)
  then show ?thesis using assms by (simp add: check_transaction_def split: option.splits)
next
  case Sweep
  then show ?thesis using assms by (simp add: check_pending_transactions_raises)
qed

lemma run_valid:
  assumes "\<forall>t \<in> set (transactions s). status t \<in> set status_names"
  shows "\<forall>t \<in> set (transactions (run clock op s)). status t \<in> set status_names"
proof (cases op)
  case (Create uid amt)
  from create_transaction_store [of uid amt clock s] assms Create show ?thesis
    by (auto simp: status_names_def)
next
  case (Cancel j)
  with assms show ?thesis
    by (auto simp: cancel_transaction_def update_status_def status_names_def
             split: sum.splits option.splits if_splits)
next
  case (Check j)
  then show ?thesis using assms by (simp add: check_transaction_def split: option.splits)
next
  case Sweep
  then show ?thesis using assms by (simp add: check_pending_transactions_raises)
qed

lemma sweep_pending_valid:
  assumes "\<forall>t \<in> set (transactions s). status t \<in> set status_names"
  shows "\<forall>t \<in> set (transactions (fst (snd (sweep_pending now s)))). status t \<in> set status_names"
proof -
  from sweep_rows_effect [of "filter (\<lambda>t. status t = ''pending'') (transactions s)" now s]
  obtain I where "fst (snd (sweep_pending now s)) = s\<lparr>transactions := map (expire_in I) (transactions s)\<rparr>"
    by (auto simp: sweep_pending_def)
  with assms show ?thesis by (auto simp: expire_in_def status_names_def)
qed

text \<open>The operations keep the keys of the table distinct.\<close>

lemma run_unique_ids: "unique_ids s \<Longrightarrow> unique_ids (run clock op s)"
proof (cases op)
  case (Create uid amt)
  assume "unique_ids s"
  with create_transaction_store [of uid amt clock s] Create show ?thesis
    using next_id_fresh [of "transactions s"] by (fastforce simp: unique_ids_def)
next
  case (Cancel j)
  assume u: "unique_ids s"
  have "id_t \<circ> (\<lambda>t::'a transaction. if id_t t = k then t\<lparr>status := v\<rparr> else t) = id_t" for k v
    by (rule ext) simp
  with u Cancel show ?thesis
    by (auto simp: unique_ids_def cancel_transaction_def update_status_def
             split: sum.splits option.splits)
next
  case (Check j)
  assume "unique_ids s"
  with Check show ?thesis by (simp add: check_transaction_def split: option.splits)
next
  case Sweep
  assume "unique_ids s"
  with Sweep show ?thesis by (simp add: check_pending_transactions_raises)
qed

section \<open>The order of commit and POST\<close>

text \<open>The two checks on the events do reject: a POST with no commit before it, a second
  POST after one commit, and a POST for a transaction that the store holds as pending.\<close>

lemma commit_precedes_post_rejects:
  "\<not> commit_precedes_post False [Post url i v]"
  "\<not> commit_precedes_post False [Commit, Post url i v, Post url' i' v']"
  "commit_precedes_post False [Commit, Post url i v, Commit, Commit, Post url' i' v']"
  by simp_all

lemma posted_expired_rejects:
  "\<not> posted_expired ledger [Commit, Post ''https://example.org/hook'' 1 ''expired'']"
  "posted_expired (update_status 1 ''expired'' ledger)
     [Commit, Post ''https://example.org/hook'' 1 ''expired'']"
  by (simp_all add: get_transaction_def update_status_def example_defs)







section \<open>The claims\<close>

text \<open>
  C5. When \<open>user_id\<close> lies in the signed 64-bit range and references no user,
  \<open>create_transaction\<close> answers 404 with the error body and leaves the store as it was,
  whatever the amount. A \<open>user_id\<close> outside that range never reaches the table: the
  look-up of line 124 raises OverflowError, the answer is 500, and the store is as it was.
\<close>

theorem create_unknown_user:
  "(\<not> int64 uid \<longrightarrow>
      create_transaction uid amt clock s = ((Unhandled OverflowError, 500), s)) \<and>
   (int64 uid \<and> get_user uid s = None \<longrightarrow>
      create_transaction uid amt clock s = ((ErrorBody ''User not found'', 404), s))"
  by (simp add: create_transaction_def user_query_get_def)

theorem create_unknown_user_witness:
  "\<not> int64 (2 ^ 63) \<and>
   create_transaction (2 ^ 63) (Double (50::real)) 5 ledger =
     ((Unhandled OverflowError, 500), ledger) \<and>
   int64 7 \<and> get_user 7 ledger = None \<and>
   create_transaction 7 (Double (50::real)) 5 ledger = ((ErrorBody ''User not found'', 404), ledger) \<and>
   create_transaction 7 (Integer (10 ^ 400) 0) 5 ledger =
     ((ErrorBody ''User not found'', 404), ledger)"
proof -
  have b: "\<not> int64 (2 ^ 63)" and i: "int64 7" by (simp_all add: int64_def)
  have h: "get_user 7 ledger = None" by (simp add: get_user_def example_defs)
  from create_unknown_user [of "2 ^ 63" "Double 50" 5 ledger] b
  have x: "create_transaction (2 ^ 63) (Double (50::real)) 5 ledger =
      ((Unhandled OverflowError, 500), ledger)" by blast
  from create_unknown_user [of 7 "Double 50" 5 ledger] i h
  have y: "create_transaction 7 (Double (50::real)) 5 ledger =
      ((ErrorBody ''User not found'', 404), ledger)" by blast
  from create_unknown_user [of 7 "Integer (10 ^ 400) 0" 5 ledger] i h
  have z: "create_transaction 7 (Integer (10 ^ 400) 0) 5 ledger =
      ((ErrorBody ''User not found'', 404), ledger)" by blast
  from b x i h y z show ?thesis by (intro conjI)
qed

text \<open>
  Without the bound on \<open>user_id\<close> the 404 fails: no user of the small ledger has the
  identifier \<open>2^63\<close>, and the answer is the 500 of the OverflowError.
\<close>

theorem create_unknown_user_counterexample:
  "get_user (2 ^ 63) ledger = None \<and>
   create_transaction (2 ^ 63) (Double 50) 5 ledger = ((Unhandled OverflowError, 500), ledger) \<and>
   fst (create_transaction (2 ^ 63) (Double 50) 5 ledger) \<noteq> (ErrorBody ''User not found'', 404)"
  by (simp add: create_transaction_def user_query_get_def int64_def get_user_def example_defs)

text \<open>
  C2. For an existing user whose commission rate \<open>r\<close> is not NULL, and an amount that has
  a double value \<open>a\<close> (a JSON real, or an integer that \<open>float()\<close> converts) with neither
  \<open>a\<close> nor \<open>a * r\<close> NaN, on a table that has a key left for a new row,
  \<open>create_transaction\<close> answers 201 with the identifier of one new row, appended to the
  table under a key no row had, whose amount is \<open>a\<close>, whose commission is \<open>a * r\<close>, whose
  status is pending, whose creation time is the clock reading and whose owner is that
  user. Afterwards no operation, and no run of the sweeper's loop at any time, changes the
  commission of a transaction. For the same user an integer amount too large for a double
  ends line 128 with OverflowError, and a NaN amount or commission is refused by the NOT
  NULL columns of lines 41-42: the answer is 500 and nothing is stored.
\<close>

theorem create_transaction_snapshot:
  assumes "get_user uid s = Some u" and "commission_rate u = Some r"
    and "double_of amt = Inr a" and "\<not> nan a" and "\<not> nan (a * r)"
    and "next_id (transactions s) = Some k"
  shows "(\<exists>t. create_transaction uid amt clock s =
              ((TransactionIdBody (sint (id_t t)), 201), s\<lparr>transactions := transactions s @ [t]\<rparr>) \<and>
            get_transaction (sint (id_t t)) s = None \<and>
            get_transaction (sint (id_t t)) (snd (create_transaction uid amt clock s)) = Some t \<and>
            amount t = a \<and> commission t = a * r \<and>
            status t = ''pending'' \<and> created_at t = clock \<and> sint (user_id t) = uid) \<and>
         (\<forall>i t. get_transaction i s0 = Some t \<longrightarrow>
            (\<exists>t'. get_transaction i (run clock' op s0) = Some t' \<and> commission t' = commission t)) \<and>
         (\<forall>i t. unique_ids s0 \<and> get_transaction i s0 = Some t \<longrightarrow>
            (\<exists>t'. get_transaction i (fst (snd (sweep_pending now s0))) = Some t' \<and>
                  commission t' = commission t)) \<and>
         (\<forall>amt' e. double_of amt' = Inl e \<longrightarrow>
            create_transaction uid amt' clock s = ((Unhandled e, 500), s)) \<and>
         (\<forall>amt' a'. double_of amt' = Inr a' \<and> (nan a' \<or> nan (a' * r)) \<longrightarrow>
            create_transaction uid amt' clock s = ((Unhandled IntegrityError, 500), s))"
proof (intro conjI allI impI)
  let ?t = "\<lparr>id_t = k, amount = a, commission = a * r, status = ''pending'',
             created_at = clock, user_id = word_of_int uid\<rparr>"
  from assms(1) have q: "user_query_get uid s = Inr (Some u)" by (rule user_query_get_Some)
  from assms(1) have "int64 uid" by (rule get_user_int64)
  then have owner: "sint (user_id ?t) = uid" by (simp add: sint_word_of_int_key)
  have fresh: "get_transaction (sint (id_t ?t)) s = None"
    using assms(6) by (simp add: get_transaction_next_id)
  have res: "create_transaction uid amt clock s =
      ((TransactionIdBody (sint (id_t ?t)), 201), s\<lparr>transactions := transactions s @ [?t]\<rparr>)"
    using assms by (simp add: create_transaction_def q multiply_def insert_transaction_def)
  have "get_transaction (sint (id_t ?t)) (s\<lparr>transactions := transactions s @ [?t]\<rparr>) = Some ?t"
    using fresh by (simp add: get_transaction_def find_append_new)
  with res have stored:
    "get_transaction (sint (id_t ?t)) (snd (create_transaction uid amt clock s)) = Some ?t"
    by simp
  show "\<exists>t. create_transaction uid amt clock s =
              ((TransactionIdBody (sint (id_t t)), 201), s\<lparr>transactions := transactions s @ [t]\<rparr>) \<and>
            get_transaction (sint (id_t t)) s = None \<and>
            get_transaction (sint (id_t t)) (snd (create_transaction uid amt clock s)) = Some t \<and>
            amount t = a \<and> commission t = a * r \<and>
            status t = ''pending'' \<and> created_at t = clock \<and> sint (user_id t) = uid"
    using res fresh stored owner by (intro exI [of _ ?t]) simp
next
  fix i t
  assume "get_transaction i s0 = Some t"
  from run_row [OF this, of clock' op]
  show "\<exists>t'. get_transaction i (run clock' op s0) = Some t' \<and> commission t' = commission t"
    by auto
next
  fix i t
  assume "unique_ids s0 \<and> get_transaction i s0 = Some t"
  then have "unique_ids s0" "get_transaction i s0 = Some t" by simp_all
  from sweep_pending_row [OF this, of now]
  show "\<exists>t'. get_transaction i (fst (snd (sweep_pending now s0))) = Some t' \<and>
             commission t' = commission t"
    by auto
next
  fix amt' :: "'a number" and e
  assume "double_of amt' = Inl e"
  then show "create_transaction uid amt' clock s = ((Unhandled e, 500), s)"
    using assms(1,2) by (simp add: create_transaction_def user_query_get_Some multiply_def)
next
  fix amt' :: "'a number" and a'
  assume "double_of amt' = Inr a' \<and> (nan a' \<or> nan (a' * r))"
  then show "create_transaction uid amt' clock s = ((Unhandled IntegrityError, 500), s)"
    using assms(1,2,6)
    by (auto simp: create_transaction_def user_query_get_Some multiply_def insert_transaction_def)
qed

theorem create_transaction_snapshot_witness:
  "get_user 1 ledger = Some alice \<and> commission_rate alice = Some (1 / 100) \<and>
   double_of (Double (300::real)) = Inr 300 \<and> \<not> nan (300::real) \<and>
   \<not> nan (300 * (1 / 100) :: real) \<and> next_id (transactions ledger) = Some 4 \<and>
   (\<exists>t. create_transaction 1 (Double 300) 5 ledger =
          ((TransactionIdBody (sint (id_t t)), 201),
           ledger\<lparr>transactions := transactions ledger @ [t]\<rparr>) \<and>
        get_transaction (sint (id_t t)) ledger = None \<and>
        get_transaction (sint (id_t t)) (snd (create_transaction 1 (Double 300) 5 ledger)) = Some t \<and>
        amount t = 300 \<and> commission t = 3 \<and> status t = ''pending'' \<and>
        created_at t = 5 \<and> sint (user_id t) = 1) \<and>
   get_transaction 1 ledger = Some (row 1 ''pending'' 0) \<and>
   map_option commission (get_transaction 1 (run 9 (Cancel 1) ledger)) = Some 2 \<and>
   unique_ids ledger \<and>
   map_option commission (get_transaction 1 (fst (snd (sweep_pending 901000000 ledger)))) = Some 2 \<and>
   double_of (Integer (10 ^ 400) (0::real)) = Inl OverflowError \<and>
   create_transaction 1 (Integer (10 ^ 400) 0) 5 ledger = ((Unhandled OverflowError, 500), ledger) \<and>
   get_user 1 bobs = Some bob \<and> commission_rate bob = Some (Num (1 / 100)) \<and>
   next_id (transactions bobs) = Some 1 \<and> nan NaN \<and>
   create_transaction 1 (Double NaN) 5 bobs = ((Unhandled IntegrityError, 500), bobs)"
proof -
  have u: "get_user 1 ledger = Some alice" by (simp add: get_user_def example_defs)
  have cr: "commission_rate alice = Some (1 / 100)" by (simp add: alice_def)
  have dbl: "double_of (Double (300::real)) = Inr 300" by simp
  have n1: "\<not> nan (300::real)" and n2: "\<not> nan (300 * (1 / 100) :: real)"
    by (simp_all add: nan_def)
  have nx: "next_id (transactions ledger) = Some 4" by (simp add: next_id_def example_defs)
  have g: "get_transaction 1 ledger = Some (row 1 ''pending'' 0)"
    by (simp add: get_transaction_def example_defs)
  have d: "unique_ids ledger" by (simp add: unique_ids_def example_defs)
  have c: "commission (row 1 ''pending'' 0) = 2" by (simp add: row_def)
  have r: "(300::real) * (1 / 100) = 3" by simp
  have big: "double_of (Integer (10 ^ 400) (0::real)) = Inl OverflowError" by simp
  note T = create_transaction_snapshot
    [OF u cr dbl n1 n2 nx, of 5 ledger 9 "Cancel 1" 901000000]
  from T r have new: "\<exists>t. create_transaction 1 (Double 300) 5 ledger =
          ((TransactionIdBody (sint (id_t t)), 201),
           ledger\<lparr>transactions := transactions ledger @ [t]\<rparr>) \<and>
        get_transaction (sint (id_t t)) ledger = None \<and>
        get_transaction (sint (id_t t)) (snd (create_transaction 1 (Double 300) 5 ledger)) = Some t \<and>
        amount t = 300 \<and> commission t = 3 \<and> status t = ''pending'' \<and>
        created_at t = 5 \<and> sint (user_id t) = 1"
    by (simp only:)
  from T g have "\<exists>t'. get_transaction 1 (run 9 (Cancel 1) ledger) = Some t' \<and>
      commission t' = commission (row 1 ''pending'' 0)" by blast
  with c have k1: "map_option commission (get_transaction 1 (run 9 (Cancel 1) ledger)) = Some 2"
    by auto
  from T g d have "\<exists>t'. get_transaction 1 (fst (snd (sweep_pending 901000000 ledger))) = Some t' \<and>
      commission t' = commission (row 1 ''pending'' 0)" by blast
  with c have k2: "map_option commission
      (get_transaction 1 (fst (snd (sweep_pending 901000000 ledger)))) = Some 2"
    by auto
  from T big have ov: "create_transaction 1 (Integer (10 ^ 400) 0) 5 ledger =
      ((Unhandled OverflowError, 500), ledger)" by blast
  have ub: "get_user 1 bobs = Some bob" by (simp add: get_user_def bob_def bobs_def)
  have crb: "commission_rate bob = Some (Num (1 / 100))" by (simp add: bob_def)
  have dblb: "double_of (Double (Num 300)) = Inr (Num 300)" by simp
  have nb1: "\<not> nan (Num 300)" and nb2: "\<not> nan (Num 300 * Num (1 / 100))"
    by (simp_all add: nan_def)
  have nxb: "next_id (transactions bobs) = Some 1" by (simp add: next_id_def bobs_def)
  have nn: "nan NaN" by (simp add: nan_def)
  have dn: "double_of (Double NaN) = Inr NaN" by simp
  from create_transaction_snapshot [OF ub crb dblb nb1 nb2 nxb, of 5] dn nn
  have nanb: "create_transaction 1 (Double NaN) 5 bobs = ((Unhandled IntegrityError, 500), bobs)"
    by blast
  from u cr dbl n1 n2 nx new g k1 d k2 big ov ub crb nxb nn nanb show ?thesis by (intro conjI)
qed

text \<open>
  Without the condition on the amount the 201 fails: for the user of the small ledger and
  the JSON integer \<open>10^400\<close> the answer is the 500 of the OverflowError of line 128, and
  the table is as it was.
\<close>

theorem create_transaction_snapshot_counterexample:
  "get_user 1 ledger = Some alice \<and> commission_rate alice = Some (1 / 100) \<and>
   create_transaction 1 (Integer (10 ^ 400) 0) 5 ledger = ((Unhandled OverflowError, 500), ledger) \<and>
   snd (fst (create_transaction 1 (Integer (10 ^ 400) 0) 5 ledger)) \<noteq> 201 \<and>
   transactions (snd (create_transaction 1 (Integer (10 ^ 400) 0) 5 ledger)) = transactions ledger"
  by (simp add: create_transaction_def user_query_get_def int64_def get_user_def multiply_def
      example_defs)

text \<open>
  C3. For a \<open>transaction_id\<close> in the signed 64-bit range, \<open>cancel_transaction\<close> answers
  404 and leaves the store alone when no transaction has the identifier; turns a pending
  transaction into a canceled one in the store and answers canceled; and for a transaction
  in any other status answers that status and leaves the store as it was. For a
  \<open>transaction_id\<close> outside that range the look-up of line 163 raises OverflowError: the
  answer is 500 and the store is as it was.
\<close>

theorem cancel_transaction_cases:
  "(\<not> int64 tid \<longrightarrow>
      cancel_transaction tid s = ((Unhandled OverflowError, 500), s)) \<and>
   (int64 tid \<and> get_transaction tid s = None \<longrightarrow>
      cancel_transaction tid s = ((ErrorBody ''Transaction not found'', 404), s)) \<and>
   (\<forall>t. get_transaction tid s = Some t \<and> status t = ''pending'' \<longrightarrow>
      fst (cancel_transaction tid s) = (StatusBody ''canceled'', 200) \<and>
      get_transaction tid (snd (cancel_transaction tid s)) = Some (t\<lparr>status := ''canceled''\<rparr>)) \<and>
   (\<forall>t. get_transaction tid s = Some t \<and> status t \<noteq> ''pending'' \<longrightarrow>
      fst (cancel_transaction tid s) = (StatusBody (status t), 200) \<and>
      snd (cancel_transaction tid s) = s)"
proof (intro conjI allI impI)
  assume "\<not> int64 tid"
  then show "cancel_transaction tid s = ((Unhandled OverflowError, 500), s)"
    by (simp add: cancel_transaction_def transaction_query_get_def)
next
  assume "int64 tid \<and> get_transaction tid s = None"
  then show "cancel_transaction tid s = ((ErrorBody ''Transaction not found'', 404), s)"
    by (simp add: cancel_transaction_def transaction_query_get_def)
next
  fix t assume "get_transaction tid s = Some t \<and> status t = ''pending''"
  then show "fst (cancel_transaction tid s) = (StatusBody ''canceled'', 200)"
    and "get_transaction tid (snd (cancel_transaction tid s)) = Some (t\<lparr>status := ''canceled''\<rparr>)"
    by (simp_all add: cancel_transaction_def transaction_query_get_Some get_transaction_update_status)
next
  fix t assume "get_transaction tid s = Some t \<and> status t \<noteq> ''pending''"
  then show "fst (cancel_transaction tid s) = (StatusBody (status t), 200)"
    and "snd (cancel_transaction tid s) = s"
    by (simp_all add: cancel_transaction_def transaction_query_get_Some)
qed

theorem cancel_transaction_cases_witness:
  "\<not> int64 (2 ^ 63) \<and>
   cancel_transaction (2 ^ 63) ledger = ((Unhandled OverflowError, 500), ledger) \<and>
   int64 9 \<and> get_transaction 9 ledger = None \<and>
   cancel_transaction 9 ledger = ((ErrorBody ''Transaction not found'', 404), ledger) \<and>
   get_transaction 1 ledger = Some (row 1 ''pending'' 0) \<and>
   fst (cancel_transaction 1 ledger) = (StatusBody ''canceled'', 200) \<and>
   get_transaction 1 (snd (cancel_transaction 1 ledger)) = Some (row 1 ''canceled'' 0) \<and>
   get_transaction 2 ledger = Some (row 2 ''confirmed'' 0) \<and>
   cancel_transaction 2 ledger = ((StatusBody ''confirmed'', 200), ledger)"
proof -
  have o: "\<not> int64 (2 ^ 63)" and i9: "int64 9" by (simp_all add: int64_def)
  have g9: "get_transaction 9 ledger = None"
    and g1: "get_transaction 1 ledger = Some (row 1 ''pending'' 0)"
    and g2: "get_transaction 2 ledger = Some (row 2 ''confirmed'' 0)"
    by (simp_all add: get_transaction_def example_defs)
  have p1: "status (row 1 ''pending'' 0) = ''pending''"
    and p2: "status (row 2 ''confirmed'' 0) \<noteq> ''pending''"
    and r1: "(row 1 ''pending'' 0)\<lparr>status := ''canceled''\<rparr> = row 1 ''canceled'' 0"
    and r2: "status (row 2 ''confirmed'' 0) = ''confirmed''"
    by (simp_all add: row_def)
  from cancel_transaction_cases [of "2 ^ 63" ledger] o
  have z: "cancel_transaction (2 ^ 63) ledger = ((Unhandled OverflowError, 500), ledger)"
    by blast
  from cancel_transaction_cases [of 9 ledger] i9 g9
  have a: "cancel_transaction 9 ledger = ((ErrorBody ''Transaction not found'', 404), ledger)"
    by blast
  from cancel_transaction_cases [of 1 ledger] g1 p1
  have b: "fst (cancel_transaction 1 ledger) = (StatusBody ''canceled'', 200) \<and>
      get_transaction 1 (snd (cancel_transaction 1 ledger)) =
        Some ((row 1 ''pending'' 0)\<lparr>status := ''canceled''\<rparr>)"
    by blast
  from cancel_transaction_cases [of 2 ledger] g2 p2
  have c: "fst (cancel_transaction 2 ledger) = (StatusBody (status (row 2 ''confirmed'' 0)), 200) \<and>
      snd (cancel_transaction 2 ledger) = ledger"
    by blast
  then have c': "cancel_transaction 2 ledger = ((StatusBody ''confirmed'', 200), ledger)"
    by (simp add: r2 prod_eq_iff)
  from o z i9 g9 a g1 b g2 c' show ?thesis by (simp add: r1)
qed

text \<open>
  Without the bound on \<open>transaction_id\<close> the 404 fails: no transaction of the small
  ledger has the identifier \<open>2^63\<close>, and the answer is the 500 of the OverflowError.
\<close>

theorem cancel_transaction_cases_counterexample:
  "get_transaction (2 ^ 63) ledger = None \<and>
   cancel_transaction (2 ^ 63) ledger = ((Unhandled OverflowError, 500), ledger) \<and>
   fst (cancel_transaction (2 ^ 63) ledger) \<noteq> (ErrorBody ''Transaction not found'', 404)"
  by (simp add: cancel_transaction_def transaction_query_get_def int64_def get_transaction_def
      example_defs)

text \<open>
  C4. A transaction whose status is not pending is the same before and after a run of
  \<open>check_pending_transactions\<close>, whatever its age. The same holds of the code from line
  211 on (the query and the loop) for every value of \<open>now\<close>, on a table with unique keys.
\<close>

theorem sweep_keeps_non_pending:
  assumes "get_transaction i s = Some t" and "status t \<noteq> ''pending''"
  shows "get_transaction i (fst (snd (check_pending_transactions clock s))) = Some t \<and>
         (unique_ids s \<longrightarrow> get_transaction i (fst (snd (sweep_pending now s))) = Some t)"
proof
  show "get_transaction i (fst (snd (check_pending_transactions clock s))) = Some t"
    using assms(1) by (simp add: check_pending_transactions_raises)
  show "unique_ids s \<longrightarrow> get_transaction i (fst (snd (sweep_pending now s))) = Some t"
  proof
    assume "unique_ids s"
    from sweep_pending_row [OF this assms(1), of now] assms(2) show
      "get_transaction i (fst (snd (sweep_pending now s))) = Some t" by blast
  qed
qed

theorem sweep_keeps_non_pending_witness:
  "get_transaction 2 ledger = Some (row 2 ''confirmed'' 0) \<and>
   status (row 2 ''confirmed'' 0) \<noteq> ''pending'' \<and>
   stale 901000000 (row 2 ''confirmed'' 0) \<and>
   unique_ids ledger \<and>
   get_transaction 2 (fst (snd (check_pending_transactions 901000000 ledger))) =
     Some (row 2 ''confirmed'' 0) \<and>
   get_transaction 2 (fst (snd (sweep_pending 901000000 ledger))) =
     Some (row 2 ''confirmed'' 0)"
proof -
  have g: "get_transaction 2 ledger = Some (row 2 ''confirmed'' 0)"
    by (simp add: get_transaction_def example_defs)
  have p: "status (row 2 ''confirmed'' 0) \<noteq> ''pending''" by (simp add: row_def)
  have o: "stale 901000000 (row 2 ''confirmed'' 0)" by (simp add: stale_def row_def)
  have d: "unique_ids ledger" by (simp add: unique_ids_def example_defs)
  note T = sweep_keeps_non_pending [OF g p, of 901000000 901000000]
  from T have a: "get_transaction 2 (fst (snd (check_pending_transactions 901000000 ledger))) =
      Some (row 2 ''confirmed'' 0)" by blast
  from T d have b: "get_transaction 2 (fst (snd (sweep_pending 901000000 ledger))) =
      Some (row 2 ''confirmed'' 0)" by blast
  from g p o d a b show ?thesis by (intro conjI)
qed

text \<open>
  C6. A transaction that an operation adds is added by create and is pending. An operation
  leaves an existing transaction as it was, except that cancel turns a pending one into a
  canceled one; so a transaction that is not pending is never modified, confirmed is never
  reached, and canceled is reached from pending alone. The sweeper's query and loop
  (from line 211 on, for every value of \<open>now\<close>) add no transaction and leave an
  existing one as it was, except that a pending one older than 900 seconds becomes expired.
  Both keep every status among pending, confirmed, canceled and expired.
\<close>

theorem transaction_lifecycle:
  "(get_transaction i s = None \<and> get_transaction i (run clock op s) = Some t' \<longrightarrow>
      status t' = ''pending'' \<and> (\<exists>uid amt. op = Create uid amt)) \<and>
   (get_transaction i s = Some t \<longrightarrow>
      get_transaction i (run clock op s) = Some t \<or>
      (status t = ''pending'' \<and> op = Cancel i \<and>
       get_transaction i (run clock op s) = Some (t\<lparr>status := ''canceled''\<rparr>))) \<and>
   (unique_ids s \<and> get_transaction i s = Some t \<longrightarrow>
      get_transaction i (fst (snd (sweep_pending now s))) = Some t \<or>
      (status t = ''pending'' \<and> stale now t \<and>
       get_transaction i (fst (snd (sweep_pending now s))) = Some (t\<lparr>status := ''expired''\<rparr>))) \<and>
   (get_transaction i s = None \<longrightarrow>
      get_transaction i (fst (snd (sweep_pending now s))) = None) \<and>
   ((\<forall>x \<in> set (transactions s). status x \<in> set status_names) \<longrightarrow>
      (\<forall>x \<in> set (transactions (run clock op s)). status x \<in> set status_names) \<and>
      (\<forall>x \<in> set (transactions (fst (snd (sweep_pending now s)))). status x \<in> set status_names))"
proof (intro conjI impI)
  assume "get_transaction i s = None \<and> get_transaction i (run clock op s) = Some t'"
  then have "get_transaction i s = None" "get_transaction i (run clock op s) = Some t'"
    by simp_all
  from run_new_row [OF this]
  show "status t' = ''pending''" and "\<exists>uid amt. op = Create uid amt" by simp_all
next
  assume "get_transaction i s = Some t"
  then show "get_transaction i (run clock op s) = Some t \<or>
      (status t = ''pending'' \<and> op = Cancel i \<and>
       get_transaction i (run clock op s) = Some (t\<lparr>status := ''canceled''\<rparr>))"
    by (rule run_row)
next
  assume "unique_ids s \<and> get_transaction i s = Some t"
  then have "unique_ids s" "get_transaction i s = Some t" by simp_all
  then show "get_transaction i (fst (snd (sweep_pending now s))) = Some t \<or>
      (status t = ''pending'' \<and> stale now t \<and>
       get_transaction i (fst (snd (sweep_pending now s))) = Some (t\<lparr>status := ''expired''\<rparr>))"
    by (rule sweep_pending_row)
next
  assume "get_transaction i s = None"
  then show "get_transaction i (fst (snd (sweep_pending now s))) = None"
    by (rule sweep_pending_new_row)
next
  assume "\<forall>x \<in> set (transactions s). status x \<in> set status_names"
  then show "\<forall>x \<in> set (transactions (run clock op s)). status x \<in> set status_names"
    by (rule run_valid)
next
  assume "\<forall>x \<in> set (transactions s). status x \<in> set status_names"
  then show "\<forall>x \<in> set (transactions (fst (snd (sweep_pending now s)))). status x \<in> set status_names"
    by (rule sweep_pending_valid)
qed

theorem transaction_lifecycle_witness:
  "get_transaction 4 ledger = None \<and>
   (\<exists>t'. get_transaction 4 (run 5 (Create 1 (Double 300)) ledger) = Some t' \<and> status t' = ''pending'') \<and>
   get_transaction 1 ledger = Some (row 1 ''pending'' 0) \<and>
   get_transaction 1 (run 5 (Cancel 1) ledger) = Some (row 1 ''canceled'' 0) \<and>
   get_transaction 2 ledger = Some (row 2 ''confirmed'' 0) \<and>
   get_transaction 2 (run 5 (Cancel 2) ledger) = Some (row 2 ''confirmed'' 0) \<and>
   get_transaction 1 (run 901000000 Sweep ledger) = Some (row 1 ''pending'' 0) \<and>
   unique_ids ledger \<and>
   get_transaction 1 (fst (snd (sweep_pending 901000000 ledger))) = Some (row 1 ''expired'' 0) \<and>
   get_transaction 4 (fst (snd (sweep_pending 901000000 ledger))) = None \<and>
   status ` set (transactions ledger) \<subseteq> set status_names \<and>
   status ` set (transactions (run 5 (Create 1 (Double 300)) ledger)) \<subseteq> set status_names \<and>
   status ` set (transactions (fst (snd (sweep_pending 901000000 ledger)))) \<subseteq> set status_names"
proof -
  have g4: "get_transaction 4 ledger = None"
    and g1: "get_transaction 1 ledger = Some (row 1 ''pending'' 0)"
    and g2: "get_transaction 2 ledger = Some (row 2 ''confirmed'' 0)"
    by (simp_all add: get_transaction_def example_defs)
  have d: "unique_ids ledger" by (simp add: unique_ids_def example_defs)
  have v: "\<forall>x \<in> set (transactions ledger). status x \<in> set status_names"
    by (simp add: status_names_def example_defs)
  have c4: "get_transaction 4 (run 5 (Create 1 (Double 300)) ledger) =
      Some \<lparr>id_t = 4, amount = 300, commission = 3, status = ''pending'', created_at = 5,
            user_id = 1\<rparr>"
    by (simp add: create_transaction_def user_query_get_def int64_def get_user_def multiply_def
        insert_transaction_def nan_def get_transaction_def next_id_def example_defs)
  from transaction_lifecycle [of 4 ledger 5 "Create 1 (Double 300)"] g4 c4
  have a: "\<exists>t'. get_transaction 4 (run 5 (Create 1 (Double 300)) ledger) = Some t' \<and> status t' = ''pending''"
    by simp
  have r1: "(row 1 ''pending'' 0)\<lparr>status := ''canceled''\<rparr> = row 1 ''canceled'' 0"
    and r2: "(row 1 ''pending'' 0)\<lparr>status := ''expired''\<rparr> = row 1 ''expired'' 0"
    and r3: "row 1 ''canceled'' 0 \<noteq> row 1 ''pending'' 0"
    and r4: "row 1 ''expired'' 0 \<noteq> row 1 ''pending'' 0"
    and p2: "status (row 2 ''confirmed'' 0) \<noteq> ''pending''"
    by (simp_all add: row_def)
  have e1: "get_transaction 1 (run 5 (Cancel 1) ledger) \<noteq> Some (row 1 ''pending'' 0)"
    by (simp add: cancel_transaction_def transaction_query_get_def int64_def get_transaction_def
        update_status_def example_defs)
  from transaction_lifecycle [of 1 ledger 5 "Cancel 1" _ "row 1 ''pending'' 0"] g1 e1 r1
  have b: "get_transaction 1 (run 5 (Cancel 1) ledger) = Some (row 1 ''canceled'' 0)"
    by auto
  from transaction_lifecycle [of 2 ledger 5 "Cancel 2" _ "row 2 ''confirmed'' 0"] g2 p2
  have c: "get_transaction 2 (run 5 (Cancel 2) ledger) = Some (row 2 ''confirmed'' 0)"
    by auto
  from transaction_lifecycle [of 1 ledger 901000000 Sweep _ "row 1 ''pending'' 0"] g1
  have s: "get_transaction 1 (run 901000000 Sweep ledger) = Some (row 1 ''pending'' 0)"
    by auto
  have e2: "get_transaction 1 (fst (snd (sweep_pending 901000000 ledger))) \<noteq>
      Some (row 1 ''pending'' 0)"
    by (simp add: sweep_pending_def transaction_user_raises stale_def update_status_def
        get_transaction_def example_defs)
  from transaction_lifecycle [of 1 ledger _ _ _ "row 1 ''pending'' 0" 901000000] g1 d e2 r2
  have x: "get_transaction 1 (fst (snd (sweep_pending 901000000 ledger))) =
      Some (row 1 ''expired'' 0)"
    by auto
  from transaction_lifecycle [of 4 ledger _ _ _ _ 901000000] g4
  have n: "get_transaction 4 (fst (snd (sweep_pending 901000000 ledger))) = None"
    by blast
  from transaction_lifecycle [of _ ledger 5 "Create 1 (Double 300)" _ _ 901000000] v
  have w: "(\<forall>x \<in> set (transactions (run 5 (Create 1 (Double 300)) ledger)). status x \<in> set status_names) \<and>
      (\<forall>x \<in> set (transactions (fst (snd (sweep_pending 901000000 ledger)))).
         status x \<in> set status_names)"
    by blast
  from v have v': "status ` set (transactions ledger) \<subseteq> set status_names" by blast
  from w have w1: "status ` set (transactions (run 5 (Create 1 (Double 300)) ledger)) \<subseteq> set status_names"
    and w2: "status ` set (transactions (fst (snd (sweep_pending 901000000 ledger)))) \<subseteq>
      set status_names"
    by blast+
  from g4 a g1 b g2 c s d x n v' w1 w2 show ?thesis by (intro conjI)
qed

text \<open>
  C7. \<open>check_transaction\<close> answers 404 when no transaction has the identifier, and otherwise
  200 with the identifier and the current status of the transaction; either way the store,
  users and transactions alike, is the one it was given.
\<close>

theorem check_transaction_read_only:
  "(get_transaction tid s = None \<longrightarrow>
      fst (check_transaction tid s) = (ErrorBody ''Transaction not found'', 404)) \<and>
   (\<forall>t. get_transaction tid s = Some t \<longrightarrow>
      fst (check_transaction tid s) = (CheckBody tid (status t), 200)) \<and>
   snd (check_transaction tid s) = s"
  by (auto simp: check_transaction_def dest: get_transaction_SomeD split: option.splits)

theorem check_transaction_read_only_witness:
  "get_transaction 9 ledger = None \<and>
   check_transaction 9 ledger = ((ErrorBody ''Transaction not found'', 404), ledger) \<and>
   get_transaction 2 ledger = Some (row 2 ''confirmed'' 0) \<and>
   check_transaction 2 ledger = ((CheckBody 2 ''confirmed'', 200), ledger)"
proof -
  have g9: "get_transaction 9 ledger = None"
    and g2: "get_transaction 2 ledger = Some (row 2 ''confirmed'' 0)"
    by (simp_all add: get_transaction_def example_defs)
  have r2: "status (row 2 ''confirmed'' 0) = ''confirmed''" by (simp add: row_def)
  from check_transaction_read_only [of 9 ledger] g9
  have a: "check_transaction 9 ledger = ((ErrorBody ''Transaction not found'', 404), ledger)"
    by (simp add: prod_eq_iff)
  from check_transaction_read_only [of 2 ledger] g2
  have b: "check_transaction 2 ledger = ((CheckBody 2 ''confirmed'', 200), ledger)"
    by (simp add: prod_eq_iff r2)
  from g9 a g2 b show ?thesis by simp
qed

text \<open>
  C8. Cancelling a pending transaction answers canceled; after that, cancelling it again,
  any number of times, answers canceled and leaves the store exactly as the first cancel
  left it.
\<close>

theorem cancel_transaction_idempotent:
  assumes "get_transaction tid s = Some t" and "status t = ''pending''"
  shows "fst (cancel_transaction tid s) = (StatusBody ''canceled'', 200) \<and>
         (\<forall>n. cancel_transaction tid
                 (((\<lambda>x. snd (cancel_transaction tid x)) ^^ n) (snd (cancel_transaction tid s))) =
               ((StatusBody ''canceled'', 200), snd (cancel_transaction tid s)))"
proof -
  let ?s1 = "snd (cancel_transaction tid s)"
  from assms have first: "cancel_transaction tid s =
      ((StatusBody ''canceled'', 200), update_status (id_t t) ''canceled'' s)"
    by (simp add: cancel_transaction_def transaction_query_get_Some)
  from assms have "get_transaction tid ?s1 = Some (t\<lparr>status := ''canceled''\<rparr>)"
    by (simp add: first get_transaction_update_status)
  then have again: "cancel_transaction tid ?s1 = ((StatusBody ''canceled'', 200), ?s1)"
    by (simp add: cancel_transaction_def transaction_query_get_Some)
  have stay: "((\<lambda>x. snd (cancel_transaction tid x)) ^^ n) ?s1 = ?s1" for n
    by (induction n) (simp_all add: again)
  from first again stay show ?thesis by simp
qed

theorem cancel_transaction_idempotent_witness:
  "get_transaction 1 ledger = Some (row 1 ''pending'' 0) \<and>
   status (row 1 ''pending'' 0) = ''pending'' \<and>
   fst (cancel_transaction 1 ledger) = (StatusBody ''canceled'', 200) \<and>
   cancel_transaction 1 (snd (cancel_transaction 1 ledger)) =
     ((StatusBody ''canceled'', 200), snd (cancel_transaction 1 ledger)) \<and>
   cancel_transaction 1 (snd (cancel_transaction 1 (snd (cancel_transaction 1 ledger)))) =
     ((StatusBody ''canceled'', 200), snd (cancel_transaction 1 ledger)) \<and>
   get_transaction 1 (snd (cancel_transaction 1 ledger)) = Some (row 1 ''canceled'' 0)"
proof -
  have g: "get_transaction 1 ledger = Some (row 1 ''pending'' 0)"
    by (simp add: get_transaction_def example_defs)
  have p: "status (row 1 ''pending'' 0) = ''pending''" by (simp add: row_def)
  have e: "get_transaction 1 (snd (cancel_transaction 1 ledger)) = Some (row 1 ''canceled'' 0)"
    by (simp add: cancel_transaction_def transaction_query_get_def int64_def get_transaction_def
        update_status_def example_defs)
  note T = cancel_transaction_idempotent [OF g p]
  from T have a: "fst (cancel_transaction 1 ledger) = (StatusBody ''canceled'', 200)" by blast
  from T have "cancel_transaction 1
      (((\<lambda>x. snd (cancel_transaction 1 x)) ^^ 0) (snd (cancel_transaction 1 ledger))) =
      ((StatusBody ''canceled'', 200), snd (cancel_transaction 1 ledger))" by blast
  then have b: "cancel_transaction 1 (snd (cancel_transaction 1 ledger)) =
      ((StatusBody ''canceled'', 200), snd (cancel_transaction 1 ledger))" by simp
  from T have "cancel_transaction 1
      (((\<lambda>x. snd (cancel_transaction 1 x)) ^^ (Suc 0)) (snd (cancel_transaction 1 ledger))) =
      ((StatusBody ''canceled'', 200), snd (cancel_transaction 1 ledger))" by blast
  then have c: "cancel_transaction 1 (snd (cancel_transaction 1 (snd (cancel_transaction 1 ledger)))) =
      ((StatusBody ''canceled'', 200), snd (cancel_transaction 1 ledger))" by simp
  from g p a b c e show ?thesis by (intro conjI)
qed

text \<open>
  C9. For an existing transaction in any status, \<open>cancel_transaction\<close> changes at most its
  status field: identifier, amount, commission, creation time and owner are as before,
  every other transaction is as before, the users are as before, and no row is added or
  removed.
\<close>

theorem cancel_transaction_frame:
  assumes "get_transaction tid s = Some t"
  shows "(\<exists>v. get_transaction tid (snd (cancel_transaction tid s)) = Some (t\<lparr>status := v\<rparr>)) \<and>
         (\<forall>j. j \<noteq> tid \<longrightarrow>
            get_transaction j (snd (cancel_transaction tid s)) = get_transaction j s) \<and>
         users (snd (cancel_transaction tid s)) = users s \<and>
         map id_t (transactions (snd (cancel_transaction tid s))) = map id_t (transactions s)"
proof (cases "status t = ''pending''")
  case False
  with assms have same: "snd (cancel_transaction tid s) = s"
    by (simp add: cancel_transaction_def transaction_query_get_Some)
  have "t\<lparr>status := status t\<rparr> = t" by simp
  with assms same have "\<exists>v. get_transaction tid (snd (cancel_transaction tid s)) = Some (t\<lparr>status := v\<rparr>)"
    by metis
  with same show ?thesis by simp
next
  case True
  let ?k = "id_t t"
  from assms have t: "sint ?k = tid" by (simp add: get_transaction_SomeD)
  from assms True have upd: "snd (cancel_transaction tid s) = update_status ?k ''canceled'' s"
    by (simp add: cancel_transaction_def transaction_query_get_Some)
  have a: "get_transaction tid (update_status ?k ''canceled'' s) = Some (t\<lparr>status := ''canceled''\<rparr>)"
    using assms by (simp add: get_transaction_update_status)
  have b: "\<forall>j. j \<noteq> tid \<longrightarrow> get_transaction j (update_status ?k ''canceled'' s) = get_transaction j s"
  proof (intro allI impI)
    fix j assume "j \<noteq> tid"
    show "get_transaction j (update_status ?k ''canceled'' s) = get_transaction j s"
    proof (cases "get_transaction j s")
      case None
      then show ?thesis by (simp add: get_transaction_update_status)
    next
      case (Some x)
      then have "sint (id_t x) = j" by (simp add: get_transaction_SomeD)
      with t \<open>j \<noteq> tid\<close> have "id_t x \<noteq> ?k" by auto
      with Some show ?thesis by (simp add: get_transaction_update_status)
    qed
  qed
  have c: "users (update_status ?k ''canceled'' s) = users s" by (rule users_update_status)
  have "id_t \<circ> (\<lambda>x::'a transaction. if id_t x = ?k then x\<lparr>status := ''canceled''\<rparr> else x) = id_t"
    by (rule ext) simp
  then have d: "map id_t (transactions (update_status ?k ''canceled'' s)) = map id_t (transactions s)"
    by (simp add: update_status_def)
  from a b c d show ?thesis unfolding upd by blast
qed

theorem cancel_transaction_frame_witness:
  "get_transaction 1 ledger = Some (row 1 ''pending'' 0) \<and>
   (\<exists>v. get_transaction 1 (snd (cancel_transaction 1 ledger)) =
          Some ((row 1 ''pending'' 0)\<lparr>status := v\<rparr>)) \<and>
   (3::int) \<noteq> 1 \<and>
   get_transaction 3 (snd (cancel_transaction 1 ledger)) = Some (row 3 ''pending'' 2000000) \<and>
   users (snd (cancel_transaction 1 ledger)) = [alice] \<and>
   map id_t (transactions (snd (cancel_transaction 1 ledger))) = [1, 2, 3]"
proof -
  have g: "get_transaction 1 ledger = Some (row 1 ''pending'' 0)"
    and g3: "get_transaction 3 ledger = Some (row 3 ''pending'' 2000000)"
    by (simp_all add: get_transaction_def example_defs)
  have us: "users ledger = [alice]" and ids: "map id_t (transactions ledger) = [1, 2, 3]"
    by (simp_all add: example_defs)
  note T = cancel_transaction_frame [OF g]
  from T have a: "\<exists>v. get_transaction 1 (snd (cancel_transaction 1 ledger)) =
          Some ((row 1 ''pending'' 0)\<lparr>status := v\<rparr>)" by blast
  have n: "(3::int) \<noteq> 1" by simp
  from T n have "get_transaction 3 (snd (cancel_transaction 1 ledger)) = get_transaction 3 ledger"
    by blast
  with g3 have b: "get_transaction 3 (snd (cancel_transaction 1 ledger)) =
      Some (row 3 ''pending'' 2000000)" by simp
  from T us have c: "users (snd (cancel_transaction 1 ledger)) = [alice]" by simp
  from T ids have d: "map id_t (transactions (snd (cancel_transaction 1 ledger))) = [1, 2, 3]"
    by simp
  from g a n b c d show ?thesis by (intro conjI)
qed

text \<open>
  C1. The claim: one run of the sweeper expires every pending transaction older than 900
  seconds and notifies the owner's webhook once, and leaves a pending transaction aged 899
  seconds alone. On the small ledger at 901 seconds, where transaction 1 is pending, 901
  seconds old and owned by a user with a webhook URL, the run ends with AttributeError at
  line 210, the store is the one it started from, transaction 1 is still pending, and
  there is neither a commit nor a POST. The dashboard's \<open>datetime.utcnow()\<close> of line 65,
  under the same import, returns the time.
\<close>

theorem sweeper_raises_before_expiring:
  "check_pending_transactions 901000000 ledger = (Some AttributeError, ledger, []) \<and>
   get_transaction 1 (fst (snd (check_pending_transactions 901000000 ledger))) =
     Some (row 1 ''pending'' 0) \<and>
   webhook_url alice = Some ''https://example.org/hook'' \<and>
   stale 901000000 (row 1 ''pending'' 0) \<and>
   utcnow_dashboard 901000000 = Inr 901000000"
  by (simp add: check_pending_transactions_def utcnow_sweeper_def utcnow_dashboard_def
      datetime_name_def get_transaction_def stale_def example_defs)


text \<open>
  What lines 211-221 do on the small ledger at 901 seconds: the expiry of transaction 1 is
  committed, and the run ends at line 217 before the POST that \<open>notify\<close> would send to
  the owner's URL.
\<close>

lemma sweep_pending_ledger:
  "sweep_pending 901000000 ledger =
     (Some AttributeError, update_status 1 ''expired'' ledger, [Commit]) \<and>
   get_transaction 1 (update_status 1 ''expired'' ledger) = Some (row 1 ''expired'' 0) \<and>
   get_user (sint (user_id (row 1 ''pending'' 0))) ledger = Some alice \<and>
   notify alice (row 1 ''pending'' 0) = [Post ''https://example.org/hook'' 1 ''expired'']"
  by (simp add: sweep_pending_def transaction_user_def transaction_attributes_def stale_def
      update_status_def get_transaction_def get_user_def notify_def example_defs)

end
